theory Spec2Isabelle
  imports Main
begin

section \<open>Python strings\<close>

text \<open>
  A Python \<open>str\<close> is a sequence of code points; it is modelled as a \<open>string\<close> whose
  characters stand for the code points 0 to 255 (ASCII and the Latin-1 supplement), so
  \<open>length\<close> counts code points as Python's \<open>len\<close> does. The classifications below are
  those of Python 3 on these code points.
\<close>

definition code :: "char \<Rightarrow> nat" where
  "code c = of_char c"

definition is_word_char :: "char \<Rightarrow> bool" where
  \<comment> \<open>the class \<open>\w\<close> of \<open>re\<close> on str patterns: alphanumeric code points and the underscore\<close>
  "is_word_char c =
     (let n = code c in
        (48 \<le> n \<and> n \<le> 57) \<or> (65 \<le> n \<and> n \<le> 90) \<or> n = 95 \<or> (97 \<le> n \<and> n \<le> 122)
        \<or> n = 170 \<or> n = 178 \<or> n = 179 \<or> n = 181 \<or> n = 185 \<or> n = 186
        \<or> (188 \<le> n \<and> n \<le> 190) \<or> (192 \<le> n \<and> n \<le> 214) \<or> (216 \<le> n \<and> n \<le> 246)
        \<or> 248 \<le> n)"

definition is_space_char :: "char \<Rightarrow> bool" where
  \<comment> \<open>\<open>str.isspace\<close>, the characters \<open>str.strip()\<close> removes and the class \<open>\s\<close>\<close>
  "is_space_char c =
     (let n = code c in (9 \<le> n \<and> n \<le> 13) \<or> (28 \<le> n \<and> n \<le> 32) \<or> n = 133 \<or> n = 160)"

definition lower_char :: "char \<Rightarrow> char" where
  \<comment> \<open>\<open>str.lower\<close> on one code point\<close>
  "lower_char c =
     (let n = code c in
        if (65 \<le> n \<and> n \<le> 90) \<or> (192 \<le> n \<and> n \<le> 222 \<and> n \<noteq> 215) then char_of (n + 32) else c)"

definition lower :: "string \<Rightarrow> string" where
  "lower s = map lower_char s"

definition strip :: "string \<Rightarrow> string" where
  \<comment> \<open>\<open>str.strip()\<close>\<close>
  "strip s = rev (dropWhile is_space_char (rev (dropWhile is_space_char s)))"

definition slice :: "string \<Rightarrow> nat \<Rightarrow> nat \<Rightarrow> string" where
  \<comment> \<open>\<open>s[a:b]\<close> for indices that are not negative\<close>
  "slice s a b = take (b - a) (drop a s)"

section \<open>Keyword matching (content\_parser.py)\<close>

text \<open>
  \<open>_find_keyword_matches\<close> searches the pattern \<open>\b<keyword>\b\<close>, the keyword escaped
  so that it is read literally, with \<open>re.IGNORECASE\<close>. \<open>boundary s i\<close> is \<open>\b\<close> at
  index \<open>i\<close>: exactly one of the characters before and after the index is a word
  character, a missing character counting as none.
\<close>

definition boundary :: "string \<Rightarrow> nat \<Rightarrow> bool" where
  "boundary s i =
     ((0 < i \<and> i \<le> length s \<and> is_word_char (s ! (i - 1))) \<noteq> (i < length s \<and> is_word_char (s ! i)))"

definition match_here :: "string \<Rightarrow> string \<Rightarrow> nat \<Rightarrow> bool" where
  \<comment> \<open>the pattern matches the text \<open>s\<close> at index \<open>i\<close>\<close>
  "match_here kw s i =
     (i + length kw \<le> length s \<and> lower (slice s i (i + length kw)) = lower kw
      \<and> boundary s i \<and> boundary s (i + length kw))"

function finditer :: "string \<Rightarrow> string \<Rightarrow> nat \<Rightarrow> nat list" where
  \<comment> \<open>the start offsets \<open>re.finditer\<close> yields when the scan resumes at index \<open>i\<close>:
      leftmost first, the next search starting where the last match ended\<close>
  "finditer kw s i =
     (if length s < i then []
      else if match_here kw s i then i # finditer kw s (if kw = [] then i + 1 else i + length kw)
      else finditer kw s (i + 1))"
  by pat_completeness auto
termination
proof (relation "measure (\<lambda>(kw, s, i). Suc (length s) - i)")
  fix kw s :: string and i :: nat
  assume "\<not> length s < i" and "match_here kw s i"
  then show "((kw, s, if kw = [] then i + 1 else i + length kw), kw, s, i)
          \<in> measure (\<lambda>(kw, s, i). Suc (length s) - i)"
    by (cases kw) auto
qed auto

declare finditer.simps [simp del]

record keyword_match =
  keyword :: string
  position :: nat
  context_str :: string

definition get_context :: "string \<Rightarrow> nat \<Rightarrow> nat \<Rightarrow> nat \<Rightarrow> string" where
  "get_context content m_start m_end context_length =
     (let context_start = m_start - context_length;
          context_end = min (length content) (m_end + context_length);
          ctx = slice content context_start context_end;
          ctx = (if 0 < context_start then ''...'' @ ctx else ctx);
          ctx = (if context_end < length content then ctx @ ''...'' else ctx)
      in strip ctx)"

definition keyword_hits :: "string \<Rightarrow> string \<Rightarrow> keyword_match list" where
  \<comment> \<open>the inner loop: one entry for each match of one keyword\<close>
  "keyword_hits content kw =
     map (\<lambda>i. \<lparr>keyword = kw, position = i,
               context_str = get_context content i (i + length kw) 100\<rparr>)
         (finditer kw content 0)"

definition find_keyword_matches :: "string list \<Rightarrow> string \<Rightarrow> keyword_match list" where
  \<comment> \<open>\<open>keywords\<close> is the keyword set in the order the \<open>for\<close> loop iterates it\<close>
  "find_keyword_matches keywords content = concat (map (keyword_hits content) keywords)"

section \<open>Entity extraction (content\_parser.py)\<close>

text \<open>
  The entity patterns are compiled regular expressions; what \<open>pattern.findall(content)\<close>
  returns is taken from the regular-expression engine as the parameter \<open>findall\<close>. Every
  pattern has either no capturing group or exactly one, so each hit is one string.
\<close>

datatype pattern =
    email_pattern | btc_legacy_pattern | btc_segwit_pattern | eth_pattern | xmr_pattern
  | pgp_pattern | phone_pattern | cc_pattern | ip_pattern | url_pattern | ssh_key_pattern
  | api_key_pattern_key | api_key_pattern_token | api_key_pattern_secret

definition api_key_patterns :: "pattern list" where
  "api_key_patterns = [api_key_pattern_key, api_key_pattern_token, api_key_pattern_secret]"

definition list_set :: "string list \<Rightarrow> string list" where
  \<comment> \<open>\<open>list(set(xs))\<close>: each value once. Python leaves the order of the result open; the
      model takes the order of first occurrence.\<close>
  "list_set xs = remdups xs"

definition is_digit_char :: "char \<Rightarrow> bool" where
  \<comment> \<open>\<open>str.isdigit\<close> on one code point: the decimal digits and the superscripts 1, 2, 3\<close>
  "is_digit_char c = (let n = code c in (48 \<le> n \<and> n \<le> 57) \<or> n = 178 \<or> n = 179 \<or> n = 185)"

definition is_decimal_char :: "char \<Rightarrow> bool" where
  "is_decimal_char c = (let n = code c in 48 \<le> n \<and> n \<le> 57)"

definition isdigit :: "string \<Rightarrow> bool" where
  "isdigit s = (s \<noteq> [] \<and> list_all is_digit_char s)"

definition is_valid_cc_format :: "string \<Rightarrow> bool" where
  "is_valid_cc_format cc =
     (let cc_clean = filter (\<lambda>c. \<not> (c = CHR ''-'' \<or> is_space_char c)) cc
      in if \<not> isdigit cc_clean then False
         else 13 \<le> length cc_clean \<and> length cc_clean \<le> 19)"

fun split :: "char \<Rightarrow> string \<Rightarrow> string list" where
  \<comment> \<open>\<open>s.split(sep)\<close> for a separator of one character\<close>
  "split sep [] = [[]]"
| "split sep (c # cs) =
     (if c = sep then [] # split sep cs
      else (case split sep cs of [] \<Rightarrow> [[c]] | p # ps \<Rightarrow> (c # p) # ps))"

definition is_int_space :: "char \<Rightarrow> bool" where
  \<comment> \<open>the white space \<open>int()\<close> accepts around a number\<close>
  "is_int_space c = (let n = code c in (9 \<le> n \<and> n \<le> 13) \<or> n = 32 \<or> n = 133 \<or> n = 160)"

fun digits_ok :: "string \<Rightarrow> bool" where
  \<comment> \<open>decimal digits, single underscores allowed between two digits\<close>
  "digits_ok [] = False"
| "digits_ok [c] = is_decimal_char c"
| "digits_ok (c # d # cs) =
     (is_decimal_char c \<and> (if d = CHR ''_'' then digits_ok cs else digits_ok (d # cs)))"

definition digits_value :: "string \<Rightarrow> int" where
  "digits_value ds = foldl (\<lambda>a c. 10 * a + (int (code c) - 48)) 0 (filter (\<lambda>c. c \<noteq> CHR ''_'') ds)"

definition py_int :: "string \<Rightarrow> int option" where
  \<comment> \<open>\<open>int(s)\<close>; \<open>None\<close> is ValueError\<close>
  "py_int s =
     (let t = rev (dropWhile is_int_space (rev (dropWhile is_int_space s)));
          (neg, ds) = (case t of [] \<Rightarrow> (False, t)
                       | c # cs \<Rightarrow> if c = CHR ''-'' then (True, cs)
                                  else if c = CHR ''+'' then (False, cs) else (False, t))
      in if digits_ok ds then Some (if neg then - digits_value ds else digits_value ds) else None)"

definition is_valid_ip :: "string \<Rightarrow> bool" where
  "is_valid_ip ip =
     (let parts = split CHR ''.'' ip
      in if length parts \<noteq> 4 then False
         else list_all (\<lambda>part. case py_int part of None \<Rightarrow> False
                                | Some num \<Rightarrow> 0 \<le> num \<and> num \<le> 255) parts)"

type_synonym entity_map = "(string \<times> string list) list"

definition all_entities :: "(pattern \<Rightarrow> string \<Rightarrow> string list) \<Rightarrow> string \<Rightarrow> entity_map" where
  \<comment> \<open>the dictionary before its empty lists are removed, in the order of its keys\<close>
  "all_entities findall content =
     [(''emails'', list_set (findall email_pattern content)),
      (''bitcoin_addresses'',
         list_set (findall btc_legacy_pattern content @ findall btc_segwit_pattern content)),
      (''ethereum_addresses'', list_set (findall eth_pattern content)),
      (''monero_addresses'', list_set (findall xmr_pattern content)),
      (''phone_numbers'', list_set (findall phone_pattern content)),
      (''credit_cards'', filter is_valid_cc_format (findall cc_pattern content)),
      (''ip_addresses'', filter is_valid_ip (findall ip_pattern content)),
      (''urls'', list_set (findall url_pattern content)),
      (''ssh_keys'', list_set (findall ssh_key_pattern content)),
      (''pgp_keys'', list_set (findall pgp_pattern content)),
      (''api_keys'', list_set (concat (map (\<lambda>p. findall p content) api_key_patterns)))]"

definition extract_entities :: "(pattern \<Rightarrow> string \<Rightarrow> string list) \<Rightarrow> string \<Rightarrow> entity_map" where
  "extract_entities findall content = filter (\<lambda>(k, v). v \<noteq> []) (all_entities findall content)"

section \<open>Finding assembly (content\_parser.py)\<close>

record page =
  url :: string
  status_code :: int
  content :: string
  raw_html :: string
  title :: string
  links :: "string list option"
  headers :: "(string \<times> string) list"
  timestamp :: int
  content_length :: nat




section \<open>Onion URL validation (utils.py, tor\_crawler.py)\<close>

text \<open>
  \<open>urllib.parse.urlparse\<close> is library code: the functions below take it as the parameter
  \<open>up\<close>, which returns the two components the code reads, or \<open>None\<close> where the library
  raises ValueError.
\<close>

record parsed_url =
  scheme :: string
  netloc :: string

type_synonym urlparse = "string \<Rightarrow> parsed_url option"

definition endswith :: "string \<Rightarrow> string \<Rightarrow> bool" where
  "endswith s suffix = (length suffix \<le> length s \<and> drop (length s - length suffix) s = suffix)"

definition startswith :: "string \<Rightarrow> string \<Rightarrow> bool" where
  "startswith s p = (take (length p) s = p)"

function remove_all :: "string \<Rightarrow> string \<Rightarrow> string" where
  \<comment> \<open>\<open>s.replace(old, '')\<close> for a non-empty \<open>old\<close>: its occurrences are deleted from left
      to right\<close>
  "remove_all old s =
     (if s = [] \<or> old = [] then s
      else if startswith s old then remove_all old (drop (length old) s)
      else hd s # remove_all old (tl s))"
  by pat_completeness auto
termination
  by (relation "measure (\<lambda>(old, s). length s)") (auto simp: neq_Nil_conv)

declare remove_all.simps [simp del]

definition upper_char :: "char \<Rightarrow> string" where
  \<comment> \<open>\<open>str.upper\<close> on one code point. The sharp s becomes \<open>SS\<close>. The micro sign and the y
      with diaeresis have upper-case forms beyond code point 255; they stay as they are,
      which is as far from ASCII.\<close>
  "upper_char c =
     (let n = code c in
        if (97 \<le> n \<and> n \<le> 122) \<or> (224 \<le> n \<and> n \<le> 254 \<and> n \<noteq> 247) then [char_of (n - 32)]
        else if n = 223 then ''SS'' else [c])"

definition upper :: "string \<Rightarrow> string" where
  "upper s = concat (map upper_char s)"

definition is_b32_char :: "char \<Rightarrow> bool" where
  \<comment> \<open>the base32 alphabet: A to Z and 2 to 7\<close>
  "is_b32_char c = (let n = code c in (65 \<le> n \<and> n \<le> 90) \<or> (50 \<le> n \<and> n \<le> 55))"

definition rstrip_pad :: "string \<Rightarrow> string" where
  "rstrip_pad s = rev (dropWhile (\<lambda>c. c = CHR ''='') (rev s))"

definition b32decode_ok :: "string \<Rightarrow> bool" where
  \<comment> \<open>\<open>base64.b32decode(s)\<close> returns: the argument is ASCII, its length is a multiple of 8,
      what precedes the trailing padding is in the alphabet, and the padding has one of
      the lengths 0, 1, 3, 4, 6. Otherwise it raises.\<close>
  "b32decode_ok s =
     (list_all (\<lambda>c. code c < 128) s \<and> length s mod 8 = 0
      \<and> list_all is_b32_char (rstrip_pad s)
      \<and> length s - length (rstrip_pad s) \<in> {0, 1, 3, 4, 6})"

definition validate_onion_url :: "urlparse \<Rightarrow> string \<Rightarrow> bool" where
  "validate_onion_url up u =
     (case up u of
        None \<Rightarrow> False
      | Some parsed \<Rightarrow>
          if scheme parsed \<notin> {''http'', ''https''} then False
          else if \<not> endswith (netloc parsed) ''.onion'' then False
          else (let domain = remove_all ''.onion'' (netloc parsed)
                in if length domain \<notin> {16, 56} then False
                   else b32decode_ok (upper domain @ ''======'')))"

definition is_valid_onion_url :: "urlparse \<Rightarrow> string \<Rightarrow> bool" where
  "is_valid_onion_url up u =
     (case up u of
        None \<Rightarrow> False
      | Some parsed \<Rightarrow> scheme parsed \<in> {''http'', ''https''} \<and> endswith (netloc parsed) ''.onion'')"

definition same_domain :: "urlparse \<Rightarrow> string \<Rightarrow> string \<Rightarrow> bool" where
  "same_domain up url1 url2 =
     (case up url1 of
        None \<Rightarrow> False
      | Some p1 \<Rightarrow> (case up url2 of None \<Rightarrow> False | Some p2 \<Rightarrow> netloc p1 = netloc p2))"

subsection \<open>A model of \<open>urlsplit\<close>\<close>

text \<open>
  The scheme and the network location as \<open>urllib.parse.urlsplit\<close> of CPython 3.11
  computes them. A network location with a square bracket is an IP literal, which the
  library checks with the \<open>ipaddress\<close> module; the model reports such a URL as \<open>None\<close>
  and is exact on every other URL.
\<close>

definition is_scheme_char :: "char \<Rightarrow> bool" where
  "is_scheme_char c =
     (let n = code c in
        (97 \<le> n \<and> n \<le> 122) \<or> (65 \<le> n \<and> n \<le> 90) \<or> (48 \<le> n \<and> n \<le> 57)
        \<or> c = CHR ''+'' \<or> c = CHR ''-'' \<or> c = CHR ''.'')"

definition is_ascii_alpha :: "char \<Rightarrow> bool" where
  "is_ascii_alpha c = (let n = code c in (97 \<le> n \<and> n \<le> 122) \<or> (65 \<le> n \<and> n \<le> 90))"

definition urlsplit_model :: urlparse where
  "urlsplit_model u0 =
     (let u1 = dropWhile (\<lambda>c. code c \<le> 32) u0;
          u = filter (\<lambda>c. code c \<noteq> 9 \<and> code c \<noteq> 13 \<and> code c \<noteq> 10) u1;
          pre = takeWhile (\<lambda>c. c \<noteq> CHR '':'') u;
          has_scheme = (length pre < length u \<and> pre \<noteq> [] \<and> is_ascii_alpha (hd u)
                        \<and> list_all is_scheme_char pre);
          sch = (if has_scheme then lower pre else []);
          rest = (if has_scheme then drop (length pre + 1) u else u);
          loc = (if take 2 rest = ''//''
                 then takeWhile (\<lambda>c. c \<noteq> CHR ''/'' \<and> c \<noteq> CHR ''?'' \<and> c \<noteq> CHR ''#'') (drop 2 rest)
                 else [])
      in if CHR ''['' \<in> set loc \<or> CHR '']'' \<in> set loc then None
         else Some \<lparr>scheme = sch, netloc = loc\<rparr>)"

section \<open>The crawler (tor\_crawler.py)\<close>

text \<open>
  The network, the HTML parser and \<open>urljoin\<close> are outside the repository. A request
  is a function \<open>fetch\<close> from the state of the world and the URL to an outcome and the
  next state; the parser and \<open>urljoin\<close> are the fields of a record \<open>lib\<close>.
\<close>

type_synonym bytes = "char list"

record response =
  resp_status :: int
  resp_content :: bytes       \<comment> \<open>\<open>response.content\<close>, the body as bytes\<close>
  resp_text :: string         \<comment> \<open>\<open>response.text\<close>, the body decoded\<close>
  resp_headers :: "(string \<times> string) list"
  resp_time :: int            \<comment> \<open>what \<open>time.time()\<close> returns once the page is parsed\<close>

datatype fetch_outcome = Timeout | ConnectionError | OtherError | Response response

record lib =
  urlparse :: urlparse
  urljoin :: "string \<Rightarrow> string \<Rightarrow> string option"   \<comment> \<open>\<open>None\<close>: ValueError\<close>
  get_text :: "string \<Rightarrow> string"      \<comment> \<open>\<open>soup.get_text(separator=' ', strip=True)\<close>\<close>
  find_hrefs :: "string \<Rightarrow> string list"   \<comment> \<open>the \<open>href\<close> of every anchor that has one\<close>
  title_string :: "string \<Rightarrow> string"

record config =
  max_pages_per_site :: int
  max_content_length :: int
  min_content_length :: int

definition slice_to :: "string \<Rightarrow> int \<Rightarrow> string" where
  \<comment> \<open>\<open>s[:n]\<close>; a negative \<open>n\<close> counts from the end\<close>
  "slice_to s n = (if 0 \<le> n then take (nat n) s else take (length s - nat (- n)) s)"

fun join_all :: "(string \<Rightarrow> string option) \<Rightarrow> string list \<Rightarrow> string list option" where
  \<comment> \<open>the resolved links, or \<open>None\<close> as soon as one \<open>urljoin\<close> raises\<close>
  "join_all j [] = Some []"
| "join_all j (h # hs) =
     (case j h of None \<Rightarrow> None
      | Some u \<Rightarrow> (case join_all j hs of None \<Rightarrow> None | Some us \<Rightarrow> Some (u # us)))"

definition build_page :: "lib \<Rightarrow> config \<Rightarrow> string \<Rightarrow> response \<Rightarrow> string \<Rightarrow> page option" where
  \<comment> \<open>\<open>crawl_page\<close> from the parsing of \<open>content\<close> on\<close>
  "build_page L cfg u r html =
     (let text_content = get_text L html
      in if int (length text_content) < min_content_length cfg then None
         else (case join_all (urljoin L u) (find_hrefs L html) of
                 None \<Rightarrow> None
               | Some full_urls \<Rightarrow>
                   Some \<lparr>url = u, status_code = resp_status r, content = text_content,
                         raw_html = html, title = title_string L html,
                         links = Some (filter (is_valid_onion_url (urlparse L)) full_urls),
                         headers = resp_headers r, timestamp = resp_time r,
                         content_length = length html\<rparr>))"

definition crawl_page ::
  "lib \<Rightarrow> config \<Rightarrow> ('w \<Rightarrow> string \<Rightarrow> fetch_outcome \<times> 'w) \<Rightarrow> 'w \<Rightarrow> string \<Rightarrow> page option \<times> 'w" where
  "crawl_page L cfg fetch w u =
     (case fetch w u of
        (Timeout, w') \<Rightarrow> (None, w')
      | (ConnectionError, w') \<Rightarrow> (None, w')
      | (OtherError, w') \<Rightarrow> (None, w')
      | (Response r, w') \<Rightarrow>
          if resp_status r \<noteq> 200 then (None, w')
          else (let max_length = max_content_length cfg;
                    html = (if max_length < int (length (resp_content r))
                            then slice_to (resp_text r) max_length else resp_text r)
                in (build_page L cfg u r html, w')))"

record 'w crawl_state =
  results :: "page list"
  visited_urls :: "string set"
  urls_to_visit :: "string list"
  fetched :: "string list"    \<comment> \<open>the URLs \<open>crawl_page\<close> was called with, in order\<close>
  world :: 'w

definition add_link :: "urlparse \<Rightarrow> string \<Rightarrow> string set \<Rightarrow> string \<Rightarrow> string list \<Rightarrow> string list" where
  \<comment> \<open>the body of the loop over the links of a page\<close>
  "add_link up base_url visited link queue =
     (if link \<notin> visited \<and> link \<notin> set queue \<and> same_domain up base_url link
      then queue @ [link] else queue)"

definition page_links :: "page \<Rightarrow> string list" where
  \<comment> \<open>\<open>page_data.get('links', [])\<close>\<close>
  "page_links p = (case links p of None \<Rightarrow> [] | Some ls \<Rightarrow> ls)"

definition crawl_step ::
  "lib \<Rightarrow> config \<Rightarrow> ('w \<Rightarrow> string \<Rightarrow> fetch_outcome \<times> 'w) \<Rightarrow> string \<Rightarrow> 'w crawl_state \<Rightarrow> 'w crawl_state" where
  \<comment> \<open>one iteration of the \<open>while\<close> loop of \<open>crawl_site\<close>\<close>
  "crawl_step L cfg fetch base_url s =
     (case urls_to_visit s of
        [] \<Rightarrow> s
      | u # rest \<Rightarrow>
          if u \<in> visited_urls s then s\<lparr>urls_to_visit := rest\<rparr>
          else (let visited = insert u (visited_urls s);
                    (page_data, w') = crawl_page L cfg fetch (world s) u;
                    s' = s\<lparr>visited_urls := visited, urls_to_visit := rest,
                           fetched := fetched s @ [u], world := w'\<rparr>
                in case page_data of
                     None \<Rightarrow> s'
                   | Some p \<Rightarrow>
                       s'\<lparr>results := results s @ [p],
                          urls_to_visit :=
                            fold (add_link (urlparse L) base_url visited) (page_links p) rest\<rparr>))"

definition crawl_cond :: "config \<Rightarrow> 'w crawl_state \<Rightarrow> bool" where
  "crawl_cond cfg s = (urls_to_visit s \<noteq> [] \<and> int (length (results s)) < max_pages_per_site cfg)"

definition crawl_measure :: "config \<Rightarrow> ('w crawl_state \<times> 'w crawl_state) set" where
  \<comment> \<open>the pages still allowed, then the length of the queue\<close>
  "crawl_measure cfg =
     inv_image (less_than <*lex*> less_than)
       (\<lambda>s. (nat (max_pages_per_site cfg - int (length (results s))), length (urls_to_visit s)))"

definition init_state :: "'w \<Rightarrow> string \<Rightarrow> 'w crawl_state" where
  "init_state w base_url =
     \<lparr>results = [], visited_urls = {}, urls_to_visit = [base_url], fetched = [], world = w\<rparr>"

function crawl_loop ::
  "lib \<Rightarrow> config \<Rightarrow> ('w \<Rightarrow> string \<Rightarrow> fetch_outcome \<times> 'w) \<Rightarrow> string \<Rightarrow> 'w crawl_state \<Rightarrow> 'w crawl_state" where
  "crawl_loop L cfg fetch base_url s =
     (if crawl_cond cfg s then crawl_loop L cfg fetch base_url (crawl_step L cfg fetch base_url s)
      else s)"
  by pat_completeness auto
termination
proof (relation "inv_image (less_than <*lex*> less_than)
       (\<lambda>(L, cfg, fetch, base_url, s).
          (nat (max_pages_per_site cfg - int (length (results s))), length (urls_to_visit s)))")
  fix L cfg and fetch :: "'w \<Rightarrow> string \<Rightarrow> fetch_outcome \<times> 'w" and base_url
    and s :: "'w crawl_state"
  assume "crawl_cond cfg s"
  then have "(crawl_step L cfg fetch base_url s, s) \<in> crawl_measure cfg"
    by (auto simp: crawl_cond_def crawl_step_def crawl_measure_def Let_def
        split: list.splits prod.splits option.splits)
  then show "((L, cfg, fetch, base_url, crawl_step L cfg fetch base_url s),
              L, cfg, fetch, base_url, s)
        \<in> inv_image (less_than <*lex*> less_than)
            (\<lambda>(L, cfg, fetch, base_url, s).
               (nat (max_pages_per_site cfg - int (length (results s))),
                length (urls_to_visit s)))"
    by (simp add: crawl_measure_def)
qed auto

declare crawl_loop.simps [simp del]

definition crawl_site ::
  "lib \<Rightarrow> config \<Rightarrow> ('w \<Rightarrow> string \<Rightarrow> fetch_outcome \<times> 'w) \<Rightarrow> 'w \<Rightarrow> string \<Rightarrow> 'w crawl_state" where
  \<comment> \<open>the state in which the loop ends; \<open>results\<close> of it is what \<open>crawl_site\<close> returns\<close>
  "crawl_site L cfg fetch w base_url = crawl_loop L cfg fetch base_url (init_state w base_url)"

fun crawl_urls ::
  "lib \<Rightarrow> config \<Rightarrow> ('w \<Rightarrow> string \<Rightarrow> fetch_outcome \<times> 'w) \<Rightarrow> 'w \<Rightarrow> string list \<Rightarrow> page list \<times> 'w" where
  \<comment> \<open>the loop of \<open>crawl_urls_from_file\<close> over the lines of the file that are URLs\<close>
  "crawl_urls L cfg fetch w [] = ([], w)"
| "crawl_urls L cfg fetch w (u # us) =
     (if is_valid_onion_url (urlparse L) u
      then (let s = crawl_site L cfg fetch w u;
                (more, w') = crawl_urls L cfg fetch (world s) us
            in (results s @ more, w'))
      else crawl_urls L cfg fetch w us)"

subsection \<open>The asynchronous crawler\<close>

definition crawl_page_async :: "lib \<Rightarrow> config \<Rightarrow> fetch_outcome \<Rightarrow> string \<Rightarrow> page option" where
  \<comment> \<open>\<open>outcome\<close> is what the request of this task meets; \<open>resp_text\<close> is
      \<open>await response.text()\<close>\<close>
  "crawl_page_async L cfg outcome u =
     (case outcome of
        Timeout \<Rightarrow> None
      | ConnectionError \<Rightarrow> None
      | OtherError \<Rightarrow> None
      | Response r \<Rightarrow>
          if resp_status r \<noteq> 200 then None
          else (let max_length = max_content_length cfg;
                    html = resp_text r;
                    html = (if max_length < int (length html) then slice_to html max_length else html);
                    text_content = get_text L html
                in if int (length text_content) < min_content_length cfg then None
                   else Some \<lparr>url = u, status_code = resp_status r, content = text_content,
                              raw_html = html, title = title_string L html, links = None,
                              headers = resp_headers r, timestamp = resp_time r,
                              content_length = length html\<rparr>))"

definition crawl_urls_async :: "lib \<Rightarrow> config \<Rightarrow> (string \<times> fetch_outcome) list \<Rightarrow> page list" where
  \<comment> \<open>one task for each URL, paired here with the outcome of its request;
      \<open>asyncio.gather\<close> returns the results of the tasks in the order of the tasks, and
      the results that are \<open>None\<close> are dropped\<close>
  "crawl_urls_async L cfg jobs =
     (let results = map (\<lambda>(u, outcome). crawl_page_async L cfg outcome u) jobs
      in map the (filter (\<lambda>r. r \<noteq> None) results))"

section \<open>Continuous monitoring (main.py)\<close>

text \<open>
  The stop flag \<open>self.running\<close> is cleared by a signal handler. The calls that block are
  counted: each request of a scan and each \<open>time.sleep(1)\<close> of the wait. The signal
  arrives during the blocking call number \<open>stop_at\<close> (counted from 0), so the flag
  reads false once that call has returned.
\<close>

record 'n monitor_world =
  ticks :: nat     \<comment> \<open>blocking calls returned so far\<close>
  net :: 'n

definition running :: "nat option \<Rightarrow> 'n monitor_world \<Rightarrow> bool" where
  "running stop_at w = (case stop_at of None \<Rightarrow> True | Some n \<Rightarrow> ticks w \<le> n)"

definition counted ::
  "('n \<Rightarrow> string \<Rightarrow> fetch_outcome \<times> 'n) \<Rightarrow> 'n monitor_world \<Rightarrow> string \<Rightarrow> fetch_outcome \<times> 'n monitor_world" where
  \<comment> \<open>a request, counted as one blocking call\<close>
  "counted fetch w u = (case fetch (net w) u of (out, n') \<Rightarrow> (out, \<lparr>ticks = ticks w + 1, net = n'\<rparr>))"

definition run_single_scan ::
  "lib \<Rightarrow> config \<Rightarrow> ('n \<Rightarrow> string \<Rightarrow> fetch_outcome \<times> 'n) \<Rightarrow> string list \<Rightarrow> 'n monitor_world \<Rightarrow> 'n monitor_world" where
  \<comment> \<open>the crawl of a scan; parsing, storing and alerting follow it and block no further\<close>
  "run_single_scan L cfg fetch seeds w = snd (crawl_urls L cfg (counted fetch) w seeds)"

fun wait_loop :: "nat option \<Rightarrow> nat \<Rightarrow> 'n monitor_world \<Rightarrow> 'n monitor_world" where
  \<comment> \<open>\<open>for _ in range(interval): if not self.running: break; time.sleep(1)\<close>\<close>
  "wait_loop stop_at 0 w = w"
| "wait_loop stop_at (Suc k) w =
     (if \<not> running stop_at w then w else wait_loop stop_at k (w\<lparr>ticks := ticks w + 1\<rparr>))"

fun run_continuous_monitoring ::
  "nat \<Rightarrow> nat option \<Rightarrow> lib \<Rightarrow> config \<Rightarrow> ('n \<Rightarrow> string \<Rightarrow> fetch_outcome \<times> 'n) \<Rightarrow> string list \<Rightarrow> int
     \<Rightarrow> 'n monitor_world \<Rightarrow> 'n monitor_world option" where
  \<comment> \<open>the first argument bounds the number of scans; \<open>None\<close>: still running after them\<close>
  "run_continuous_monitoring 0 stop_at L cfg fetch seeds interval w =
     (if running stop_at w then None else Some w)"
| "run_continuous_monitoring (Suc fuel) stop_at L cfg fetch seeds interval w =
     (if running stop_at w
      then run_continuous_monitoring fuel stop_at L cfg fetch seeds interval
             (wait_loop stop_at (nat interval) (run_single_scan L cfg fetch seeds w))
      else Some w)"

section \<open>Vocabulary of the specification\<close>

definition occurs_unflanked :: "string \<Rightarrow> string \<Rightarrow> nat \<Rightarrow> bool" where
  \<comment> \<open>the keyword's characters appear at index \<open>i\<close>, ignoring case, not immediately
      preceded and not immediately followed by a word character\<close>
  "occurs_unflanked kw s i =
     (i + length kw \<le> length s \<and> lower (slice s i (i + length kw)) = lower kw
      \<and> \<not> (0 < i \<and> is_word_char (s ! (i - 1)))
      \<and> \<not> (i + length kw < length s \<and> is_word_char (s ! (i + length kw))))"

primrec rank :: "string list \<Rightarrow> string \<Rightarrow> nat" where
  \<comment> \<open>the place of a keyword in the order of iteration\<close>
  "rank [] k = 0"
| "rank (x # xs) k = (if x = k then 0 else Suc (rank xs k))"

definition utf8_length :: "string \<Rightarrow> nat" where
  \<comment> \<open>the number of bytes of the UTF-8 encoding: one byte for an ASCII code point, two
      for the code points 128 to 255\<close>
  "utf8_length s = length (filter (\<lambda>c. code c < 128) s) + 2 * length (filter (\<lambda>c. 128 \<le> code c) s)"

section \<open>Sample inputs\<close>

text \<open>
  What the entity patterns find in sample texts: the hits of \<open>re\<close> on \<open>a@b.com a@b.com\<close>,
  on \<open>1.2.3.4 1.2.3.4\<close> and on \<open>Bitcoin wallet a@b.com\<close>.
\<close>

definition twice_email :: "pattern \<Rightarrow> string \<Rightarrow> string list" where
  "twice_email p doc = (if p = email_pattern then [''a@b.com'', ''a@b.com''] else [])"

definition twice_ip :: "pattern \<Rightarrow> string \<Rightarrow> string list" where
  "twice_ip p doc = (if p = ip_pattern then [''1.2.3.4'', ''1.2.3.4''] else [])"



section \<open>Properties of keyword matching\<close>






lemma finditer_sound: "j \<in> set (finditer kw s p) \<Longrightarrow> match_here kw s j \<and> p \<le> j"
proof (induction kw s p rule: finditer.induct)
  case (1 kw s i)
  note unfold = finditer.simps [of kw s i]
  show ?case
  proof (cases "length s < i")
    case True
    with "1.prems" show ?thesis by (simp add: unfold)
  next
    case False
    show ?thesis
    proof (cases "match_here kw s i")
      case True
      define nxt where "nxt = (if kw = [] then i + 1 else i + length kw)"
      have "i \<le> nxt" by (simp add: nxt_def)
      from False True "1.prems" have "j = i \<or> j \<in> set (finditer kw s nxt)"
        by (simp add: unfold nxt_def)
      then show ?thesis
      proof
        assume "j = i"
        with True show ?thesis by simp
      next
        assume "j \<in> set (finditer kw s nxt)"
        then have "match_here kw s j \<and> nxt \<le> j"
          using "1.IH"(1) [OF False True] by (simp add: nxt_def)
        with \<open>i \<le> nxt\<close> show ?thesis by simp
      qed
    next
      case nm: False
      from False nm "1.prems" have "j \<in> set (finditer kw s (i + 1))"
        by (simp add: unfold)
      then have "match_here kw s j \<and> i + 1 \<le> j"
        using "1.IH"(2) [OF False nm] by simp
      then show ?thesis by simp
    qed
  qed
qed


lemma finditer_spaced:
  "sorted_wrt (\<lambda>a b. a < b \<and> a + length kw \<le> b) (finditer kw s p)"
proof (induction kw s p rule: finditer.induct)
  case (1 kw s i)
  note unfold = finditer.simps [of kw s i]
  show ?case
  proof (cases "length s < i")
    case True
    then show ?thesis by (simp add: unfold)
  next
    case False
    show ?thesis
    proof (cases "match_here kw s i")
      case True
      define nxt where "nxt = (if kw = [] then i + 1 else i + length kw)"
      have "i < j \<and> i + length kw \<le> j" if "j \<in> set (finditer kw s nxt)" for j
      proof -
        from that have "nxt \<le> j"
          using finditer_sound by blast
        then show ?thesis
          by (cases kw) (simp_all add: nxt_def)
      qed
      moreover have "sorted_wrt (\<lambda>a b. a < b \<and> a + length kw \<le> b) (finditer kw s nxt)"
        using "1.IH"(1) [OF False True] by (simp add: nxt_def)
      moreover have "finditer kw s i = i # finditer kw s nxt"
        using False True by (simp add: unfold nxt_def)
      ultimately show ?thesis by simp
    next
      case nm: False
      have "finditer kw s i = finditer kw s (i + 1)"
        using False nm by (simp add: unfold)
      with "1.IH"(2) [OF False nm] show ?thesis by simp
    qed
  qed
qed


lemma keyword_hits_keyword: "m \<in> set (keyword_hits s kw) \<Longrightarrow> keyword m = kw"
  by (auto simp: keyword_hits_def)

lemma positions_keyword_hits: "map position (keyword_hits s kw) = finditer kw s 0"
  by (simp add: keyword_hits_def comp_def)



lemmas kw_eval = finditer.simps find_keyword_matches_def keyword_hits_def match_here_def boundary_def
  is_word_char_def code_def lower_def lower_char_def slice_def occurs_unflanked_def
  get_context_def strip_def is_space_char_def char_of_eq_iff



lemma bitcoincash_no_match: "find_keyword_matches [''bitcoin''] ''bitcoincash'' = []"
  by (simp add: kw_eval)

lemma overlap_example:
  "occurs_unflanked ''a a'' ''a a a'' 2 \<and> map position (find_keyword_matches [''a a''] ''a a a'') = [0]"
  by (simp add: kw_eval)

lemma rank_less: "k \<in> set xs \<Longrightarrow> rank xs k < length xs"
  by (induction xs) auto

lemma rank_Cons_less:
  "k \<noteq> x \<Longrightarrow> k' \<noteq> x \<Longrightarrow> rank (x # xs) k < rank (x # xs) k' \<longleftrightarrow> rank xs k < rank xs k'"
  by simp

lemma keyword_in_matches:
  "m \<in> set (find_keyword_matches kws s) \<Longrightarrow> keyword m \<in> set kws"
  by (auto simp: find_keyword_matches_def keyword_hits_def)

lemma keyword_hits_sorted:
  "sorted_wrt (\<lambda>m n. keyword m = keyword n \<and> position m < position n) (keyword_hits s kw)"
proof -
  have "sorted_wrt (\<lambda>a b. a < b) (finditer kw s 0)"
    using finditer_spaced [of kw s 0] by (rule sorted_wrt_mono_rel [rotated]) simp
  then show ?thesis
    by (simp add: keyword_hits_def sorted_wrt_map)
qed

lemma matches_sorted:
  "distinct kws \<Longrightarrow>
   sorted_wrt (\<lambda>m n. rank kws (keyword m) < rank kws (keyword n)
                        \<or> (keyword m = keyword n \<and> position m < position n))
           (find_keyword_matches kws s)"
proof (induction kws)
  case Nil
  then show ?case by (simp add: find_keyword_matches_def)
next
  case (Cons kw kws)
  let ?R = "\<lambda>ks m n. rank ks (keyword m) < rank ks (keyword n)
                        \<or> (keyword m = keyword n \<and> position m < position n)"
  have split: "find_keyword_matches (kw # kws) s = keyword_hits s kw @ find_keyword_matches kws s"
    by (simp add: find_keyword_matches_def)
  have 1: "sorted_wrt (?R (kw # kws)) (keyword_hits s kw)"
    using keyword_hits_sorted [of s kw] by (rule sorted_wrt_mono_rel [rotated]) simp
  have "sorted_wrt (?R kws) (find_keyword_matches kws s)"
    using Cons by simp
  then have 2: "sorted_wrt (?R (kw # kws)) (find_keyword_matches kws s)"
  proof (rule sorted_wrt_mono_rel [rotated])
    fix m n assume "m \<in> set (find_keyword_matches kws s)" "n \<in> set (find_keyword_matches kws s)"
      and R: "?R kws m n"
    then have "keyword m \<noteq> kw" "keyword n \<noteq> kw"
      using Cons.prems keyword_in_matches by auto
    with R show "?R (kw # kws) m n" by auto
  qed
  have 3: "?R (kw # kws) m n"
    if "m \<in> set (keyword_hits s kw)" "n \<in> set (find_keyword_matches kws s)" for m n
  proof -
    have "keyword m = kw" using that(1) by (rule keyword_hits_keyword)
    moreover have "keyword n \<noteq> kw"
      using that(2) Cons.prems keyword_in_matches by auto
    ultimately show ?thesis by auto
  qed
  show ?case
    unfolding split sorted_wrt_append using 1 2 3 by blast
qed

lemma filter_other_keyword:
  "kw \<noteq> k \<Longrightarrow> filter (\<lambda>m. keyword m = kw) (keyword_hits s k) = []"
  by (auto simp: keyword_hits_def filter_empty_conv)

lemma filter_same_keyword:
  "filter (\<lambda>m. keyword m = kw) (keyword_hits s kw) = keyword_hits s kw"
  by (auto simp: keyword_hits_def filter_id_conv)

lemma filter_absent_keyword:
  "kw \<notin> set kws \<Longrightarrow> filter (\<lambda>m. keyword m = kw) (find_keyword_matches kws s) = []"
  using keyword_in_matches by (fastforce simp: filter_empty_conv)

lemma matches_of_keyword:
  "distinct kws \<Longrightarrow> kw \<in> set kws \<Longrightarrow>
   filter (\<lambda>m. keyword m = kw) (find_keyword_matches kws s) = keyword_hits s kw"
proof (induction kws)
  case Nil
  then show ?case by simp
next
  case (Cons k kws)
  have split: "find_keyword_matches (k # kws) s = keyword_hits s k @ find_keyword_matches kws s"
    by (simp add: find_keyword_matches_def)
  show ?case
  proof (cases "kw = k")
    case True
    with Cons.prems have "kw \<notin> set kws" by simp
    then show ?thesis
      using True by (simp add: split filter_same_keyword filter_absent_keyword)
  next
    case False
    with Cons show ?thesis
      by (simp add: split filter_other_keyword)
  qed
qed

text \<open>
  Claim C3, as the code has it. The matches are in the order of discovery of the two
  nested loops: keyword by keyword in the order the keyword set is iterated, and for one
  keyword by increasing offset, one entry for each match of \<open>finditer\<close>.
\<close>

theorem matches_in_discovery_order:
  assumes "distinct kws"
  shows "sorted_wrt (\<lambda>m n. rank kws (keyword m) < rank kws (keyword n)
                        \<or> (keyword m = keyword n \<and> position m < position n))
           (find_keyword_matches kws s)
       \<and> (\<forall>kw\<in>set kws. map position (filter (\<lambda>m. keyword m = kw) (find_keyword_matches kws s))
                          = finditer kw s 0)"
  using assms by (simp add: matches_sorted matches_of_keyword positions_keyword_hits)

theorem matches_in_discovery_order_witness:
  "distinct [''alpha'', ''beta'']
   \<and> map position (filter (\<lambda>m. keyword m = ''beta'')
         (find_keyword_matches [''alpha'', ''beta''] ''beta alpha beta'')) = [0, 11]"
proof -
  have d: "distinct [''alpha'', ''beta'']" by simp
  have "map position (filter (\<lambda>m. keyword m = ''beta'')
         (find_keyword_matches [''alpha'', ''beta''] ''beta alpha beta''))
        = finditer ''beta'' ''beta alpha beta'' 0"
    using matches_in_discovery_order [OF d, of "''beta alpha beta''"] by simp
  also have "\<dots> = [0, 11]"
    by (simp add: kw_eval)
  finally show ?thesis using d by simp
qed

text \<open>
  With two keywords the first entry need not be the occurrence at the smallest offset,
  whichever of the two the loop takes first.
\<close>

theorem first_match_not_smallest_offset_counterexample:
  "map position (find_keyword_matches [''alpha'', ''beta''] ''beta alpha'') = [5, 0]
   \<and> map position (find_keyword_matches [''beta'', ''alpha''] ''alpha beta'') = [6, 0]"
  by (simp add: kw_eval)

section \<open>Properties of entity extraction and finding assembly\<close>

lemma distinct_list_set: "distinct (list_set xs)"
  by (simp add: list_set_def)

lemma all_entities_keys:
  "map fst (all_entities findall doc) =
     [''emails'', ''bitcoin_addresses'', ''ethereum_addresses'', ''monero_addresses'',
      ''phone_numbers'', ''credit_cards'', ''ip_addresses'', ''urls'', ''ssh_keys'',
      ''pgp_keys'', ''api_keys'']"
  by (simp add: all_entities_def)

lemma distinct_all_entities_keys: "distinct (map fst (all_entities findall doc))"
  unfolding all_entities_keys by simp

lemma all_entities_deduplicated:
  "list_all (\<lambda>(k, v). k \<noteq> ''credit_cards'' \<and> k \<noteq> ''ip_addresses'' \<longrightarrow> distinct v)
     (all_entities findall doc)"
  by (simp add: all_entities_def distinct_list_set)

lemma extract_entities_subset:
  "set (extract_entities findall doc) = {(k, v). (k, v) \<in> set (all_entities findall doc) \<and> v \<noteq> []}"
  by (auto simp: extract_entities_def)

lemma all_entities_functional:
  assumes "(k, v) \<in> set (all_entities findall doc)" and "(k, v') \<in> set (all_entities findall doc)"
  shows "v = v'"
  using distinct_all_entities_keys [of findall doc] assms by (rule eq_key_imp_eq_value)

text \<open>
  Claim C4, as the code has it. Every kind in the result holds a non-empty list; the list
  has no duplicates for every kind but \<open>credit_cards\<close> and \<open>ip_addresses\<close>, which are
  filtered by their validity checks and not passed through \<open>set\<close>; no kind appears
  twice; and a kind is in the result exactly when it has a value.
\<close>

theorem entities_nonempty_and_deduplicated:
  "(\<forall>(k, v)\<in>set (extract_entities findall doc).
       v \<noteq> [] \<and> (k \<noteq> ''credit_cards'' \<and> k \<noteq> ''ip_addresses'' \<longrightarrow> distinct v))
   \<and> distinct (map fst (extract_entities findall doc))
   \<and> (\<forall>(k, v)\<in>set (all_entities findall doc).
         (k \<in> fst ` set (extract_entities findall doc)) = (v \<noteq> []))"
proof (intro conjI)
  have ded: "k \<noteq> ''credit_cards'' \<and> k \<noteq> ''ip_addresses'' \<longrightarrow> distinct v"
    if "(k, v) \<in> set (all_entities findall doc)" for k v
    using all_entities_deduplicated [of findall doc] that
    unfolding list_all_iff by blast
  show "\<forall>(k, v)\<in>set (extract_entities findall doc).
       v \<noteq> [] \<and> (k \<noteq> ''credit_cards'' \<and> k \<noteq> ''ip_addresses'' \<longrightarrow> distinct v)"
    unfolding extract_entities_subset using ded by blast
  show "distinct (map fst (extract_entities findall doc))"
    unfolding extract_entities_def
    by (rule distinct_map_filter) (rule distinct_all_entities_keys)
  show "\<forall>(k, v)\<in>set (all_entities findall doc).
         (k \<in> fst ` set (extract_entities findall doc)) = (v \<noteq> [])"
  proof (clarify, rule iffI)
    fix k v assume kv: "(k, v) \<in> set (all_entities findall doc)"
    { assume "k \<in> fst ` set (extract_entities findall doc)"
      then obtain v' where v': "(k, v') \<in> set (all_entities findall doc)" "v' \<noteq> []"
        unfolding extract_entities_subset by force
      from all_entities_functional [OF kv v'(1)] v'(2) show "v \<noteq> []" by simp }
    { assume "v \<noteq> []"
      with kv have "(k, v) \<in> set (extract_entities findall doc)"
        unfolding extract_entities_subset by simp
      then show "k \<in> fst ` set (extract_entities findall doc)"
        by force }
  qed
qed

lemmas entity_eval = extract_entities_def all_entities_def list_set_def api_key_patterns_def
  is_valid_ip_def py_int_def digits_value_def is_int_space_def is_decimal_char_def code_def
  is_valid_cc_format_def isdigit_def is_digit_char_def is_space_char_def

lemma email_twice_one_entry:
  "extract_entities twice_email ''a@b.com a@b.com'' = [(''emails'', [''a@b.com''])]"
  by (simp add: entity_eval twice_email_def)

theorem entities_nonempty_and_deduplicated_witness:
  "extract_entities twice_email ''a@b.com a@b.com'' = [(''emails'', [''a@b.com''])]
   \<and> [''a@b.com''] \<noteq> [] \<and> distinct [''a@b.com'']"
proof -
  have "\<forall>(k, v)\<in>set (extract_entities twice_email ''a@b.com a@b.com'').
       v \<noteq> [] \<and> (k \<noteq> ''credit_cards'' \<and> k \<noteq> ''ip_addresses'' \<longrightarrow> distinct v)"
    using entities_nonempty_and_deduplicated [of twice_email "''a@b.com a@b.com''"]
    by (rule conjunct1)
  then show ?thesis
    unfolding email_twice_one_entry by simp
qed

text \<open>
  A text with the same IP address twice: both hits pass \<open>_is_valid_ip\<close> and both stay.
\<close>

theorem ip_addresses_not_deduplicated_counterexample:
  "extract_entities twice_ip ''1.2.3.4 1.2.3.4'' = [(''ip_addresses'', [''1.2.3.4'', ''1.2.3.4''])]
   \<and> \<not> distinct [''1.2.3.4'', ''1.2.3.4'']"
  by (simp add: entity_eval twice_ip_def)





end
